theory Spec2Isabelle
  imports Main "HOL-Library.Char_ord" "HOL-Library.List_Lexorder" "HOL-Library.Sublist"
    "HOL-Library.Multiset"
begin

section \<open>Text model\<close>

text \<open>
  The program \<^verbatim>\<open>update_index.py\<close> works on Python \<^verbatim>\<open>str\<close> values. They are
  modelled as HOL strings, a \<open>char\<close> standing for the code point of the same number
  (0 to 255, the ASCII and Latin-1 blocks). On these code points the functions below do
  what Python's \<^verbatim>\<open>str.isspace\<close>, \<^verbatim>\<open>str.lower\<close>, \<^verbatim>\<open>str.strip\<close>, \<^verbatim>\<open>str.replace\<close>,
  \<^verbatim>\<open>str.join\<close> and \<^verbatim>\<open>str.title\<close> do; text with code points above 255 is outside the model.
  Strings are compared as Python compares them, lexicographically by code point.
\<close>

definition newline :: char where
  "newline = CHR 0x0A"

definition dquote :: char where
  "dquote = CHR 0x22"

definition squote :: char where
  "squote = CHR 0x27"

text \<open>\<^verbatim>\<open>str.isspace\<close> on one character; the class \<^verbatim>\<open>\s\<close> of \<^verbatim>\<open>re\<close> is the same set:
  tab to carriage return, the separators 0x1C to 0x1F, space, NEL (0x85) and the
  no-break space (0xA0).\<close>

definition py_isspace :: "char \<Rightarrow> bool" where
  "py_isspace c =
     (let n = (of_char c :: nat)
      in (9 \<le> n \<and> n \<le> 13) \<or> (28 \<le> n \<and> n \<le> 32) \<or> n = 133 \<or> n = 160)"

text \<open>\<^verbatim>\<open>str.lower\<close> on one character: A to Z, and the Latin-1 capitals 0xC0 to 0xDE
  without the multiplication sign 0xD7, move up by 32.\<close>

definition py_lower_char :: "char \<Rightarrow> char" where
  "py_lower_char c =
     (let n = (of_char c :: nat)
      in if (65 \<le> n \<and> n \<le> 90) \<or> (192 \<le> n \<and> n \<le> 222 \<and> n \<noteq> 215)
         then char_of (n + 32) else c)"

definition py_lower :: "string \<Rightarrow> string" where
  "py_lower s = map py_lower_char s"

text \<open>\<^verbatim>\<open>s.strip()\<close>: white space removed at both ends.\<close>

definition py_strip :: "string \<Rightarrow> string" where
  "py_strip s = rev (dropWhile py_isspace (rev (dropWhile py_isspace s)))"

text \<open>\<^verbatim>\<open>sep.join(xs)\<close>.\<close>

fun py_join :: "string \<Rightarrow> string list \<Rightarrow> string" where
  "py_join sep [] = []"
| "py_join sep [x] = x"
| "py_join sep (x # y # ys) = x @ sep @ py_join sep (y # ys)"

text \<open>\<^verbatim>\<open>s.replace(old, new)\<close> without a count: every occurrence of \<open>old\<close>, found from
  left to right without overlap, is replaced. With an empty \<open>old\<close> Python puts \<open>new\<close>
  before every character and at the end.\<close>

function py_replace_ne :: "string \<Rightarrow> string \<Rightarrow> string \<Rightarrow> string" where
  "py_replace_ne old new [] = []"
| "py_replace_ne old new (c # cs) =
     (if old \<noteq> [] \<and> prefix old (c # cs)
      then new @ py_replace_ne old new (drop (length old) (c # cs))
      else c # py_replace_ne old new cs)"
  by pat_completeness auto
termination
  by (relation "measure (\<lambda>(old, new, s). length s)") (auto simp: neq_Nil_conv)

definition py_replace :: "string \<Rightarrow> string \<Rightarrow> string \<Rightarrow> string" where
  "py_replace old new s =
     (if old = [] then new @ concat (map (\<lambda>c. c # new) s) else py_replace_ne old new s)"

section \<open>Metadata extraction\<close>

text \<open>
  The two extractors call \<^verbatim>\<open>re.search\<close> with a fixed pattern. The matcher of each
  pattern is written out piece by piece, every piece taking the text still to be read and
  returning what is left of it after the piece (or \<open>None\<close> when the piece does not match
  there); \<open>re_search\<close> tries the start positions from left to right, the end of the text
  included, and returns the first match.
\<close>

fun re_search :: "(string \<Rightarrow> 'a option) \<Rightarrow> string \<Rightarrow> 'a option" where
  "re_search m [] = m []"
| "re_search m (c # cs) = (case m (c # cs) of Some g \<Rightarrow> Some g | None \<Rightarrow> re_search m cs)"

text \<open>A literal under \<^verbatim>\<open>re.IGNORECASE\<close>: a character of the text matches a character
  of the pattern when both have the same lower case.\<close>

fun lit_ci :: "string \<Rightarrow> string \<Rightarrow> string option" where
  "lit_ci [] s = Some s"
| "lit_ci (p # ps) [] = None"
| "lit_ci (p # ps) (c # cs) =
     (if py_lower_char c = py_lower_char p then lit_ci ps cs else None)"

text \<open>\<^verbatim>\<open>\s+\<close>: one white-space character or more. The quantifier is greedy and what
  follows it in the pattern is a letter, so giving back a white-space character never
  helps: all of them are taken.\<close>

definition spaces1 :: "string \<Rightarrow> string option" where
  "spaces1 s =
     (case s of [] \<Rightarrow> None
      | c # cs \<Rightarrow> if py_isspace c then Some (dropWhile py_isspace cs) else None)"

text \<open>The class \<^verbatim>\<open>["\']\<close>: one quote character of either kind.\<close>

definition is_quote :: "char \<Rightarrow> bool" where
  "is_quote c = (c = dquote \<or> c = squote)"

definition quote1 :: "string \<Rightarrow> string option" where
  "quote1 s = (case s of [] \<Rightarrow> None | c # cs \<Rightarrow> if is_quote c then Some cs else None)"

text \<open>\<^verbatim>\<open>(.*?)["\']\<close> without \<^verbatim>\<open>re.DOTALL\<close>: the lazy group first tries to end where it
  stands (a quote follows), otherwise it takes one more character, which must not be a
  line feed. The group is returned.\<close>

fun lazy_dot_quote :: "string \<Rightarrow> string option" where
  "lazy_dot_quote [] = None"
| "lazy_dot_quote (c # cs) =
     (if is_quote c then Some []
      else if c = newline then None
      else map_option ((#) c) (lazy_dot_quote cs))"

text \<open>\<^verbatim>\<open>(.*?)</title>\<close> with \<^verbatim>\<open>re.DOTALL\<close>: the lazy group ends at the first place where
  the closing literal matches; any character, a line feed too, may be taken.\<close>

fun lazy_any_lit :: "string \<Rightarrow> string \<Rightarrow> string option" where
  "lazy_any_lit p [] = (case lit_ci p [] of Some r \<Rightarrow> Some [] | None \<Rightarrow> None)"
| "lazy_any_lit p (c # cs) =
     (case lit_ci p (c # cs) of Some r \<Rightarrow> Some []
      | None \<Rightarrow> map_option ((#) c) (lazy_any_lit p cs))"

definition match_title_at :: "string \<Rightarrow> string option" where
  "match_title_at s = Option.bind (lit_ci ''<title>'' s) (lazy_any_lit ''</title>'')"

definition extract_title :: "string \<Rightarrow> string option" where
  "extract_title content = map_option py_strip (re_search match_title_at content)"

definition match_description_at :: "string \<Rightarrow> string option" where
  "match_description_at s =
     Option.bind (lit_ci ''<meta'' s) (\<lambda>r1.
     Option.bind (spaces1 r1) (\<lambda>r2.
     Option.bind (lit_ci ''name='' r2) (\<lambda>r3.
     Option.bind (quote1 r3) (\<lambda>r4.
     Option.bind (lit_ci ''description'' r4) (\<lambda>r5.
     Option.bind (quote1 r5) (\<lambda>r6.
     Option.bind (spaces1 r6) (\<lambda>r7.
     Option.bind (lit_ci ''content='' r7) (\<lambda>r8.
     Option.bind (quote1 r8) lazy_dot_quote))))))))"

definition extract_description :: "string \<Rightarrow> string option" where
  "extract_description content = map_option py_strip (re_search match_description_at content)"

section \<open>Files and directories\<close>

text \<open>
  What \<^verbatim>\<open>read_text(encoding="utf-8")\<close> does with a file: it returns the text (as read,
  that is with universal newlines), or raises
  an \<^verbatim>\<open>OSError\<close> (with its message), or raises \<^verbatim>\<open>UnicodeDecodeError\<close> because the bytes
  are not UTF-8. A directory is its path and its files in the order in which the platform
  enumerates them; \<open>dir_write_error\<close> is the \<^verbatim>\<open>OSError\<close> message that writing a file
  into it raises, \<open>None\<close> when writing succeeds.
\<close>

datatype read_result = Text string | ReadFails string | NotUTF8

record directory =
  dir_path :: string
  dir_files :: "(string \<times> read_result) list"
  dir_write_error :: "string option"

datatype error =
    MissingDescriptionError string
  | UnicodeDecodeError
  | FileNotFoundError string
  | OSError string

record ToolInfo =
  filename :: string
  title :: string
  description :: string

text \<open>\<^verbatim>\<open>str(directory / name)\<close>, where \<open>dir\<close> is \<^verbatim>\<open>str(directory)\<close> as \<^verbatim>\<open>pathlib\<close>
  prints it: the current directory is \<^verbatim>\<open>.\<close> and is left out of the joined path, a root
  ends with its slash, and no other path does.\<close>

definition path_str :: "string \<Rightarrow> string \<Rightarrow> string" where
  "path_str dir name =
     (if dir = [] \<or> dir = ''.'' then name
      else if last dir = CHR ''/'' then dir @ name
      else dir @ ''/'' @ name)"

text \<open>\<^verbatim>\<open>directory.glob("*.html")\<close> on a POSIX file system: the files whose name ends
  with \<^verbatim>\<open>.html\<close>, hidden ones too, in enumeration order.\<close>

definition glob_html :: "directory \<Rightarrow> (string \<times> read_result) list" where
  "glob_html d = filter (\<lambda>(name, r). suffix ''.html'' name) (dir_files d)"

text \<open>\<^verbatim>\<open>Path.stem\<close>: the name up to its last dot, when that dot is neither the first
  nor the last character of the name.\<close>

fun rfind_char :: "char \<Rightarrow> string \<Rightarrow> nat option" where
  "rfind_char x [] = None"
| "rfind_char x (c # cs) =
     (case rfind_char x cs of Some i \<Rightarrow> Some (Suc i)
      | None \<Rightarrow> if c = x then Some 0 else None)"

definition path_stem :: "string \<Rightarrow> string" where
  "path_stem name =
     (case rfind_char CHR ''.'' name of None \<Rightarrow> name
      | Some i \<Rightarrow> if 0 < i \<and> Suc i < length name then take i name else name)"

text \<open>\<^verbatim>\<open>str.title\<close>: a cased character is put in title case when the character before
  it is not cased, and in lower case otherwise. The title case of the sharp s (0xDF) is
  the two letters \<^verbatim>\<open>Ss\<close>. The title cases of the micro sign (0xB5) and of the y with
  diaeresis (0xFF) are code points above 255: the model leaves these two characters as
  they are.\<close>

definition py_cased :: "char \<Rightarrow> bool" where
  "py_cased c =
     (let n = (of_char c :: nat)
      in (65 \<le> n \<and> n \<le> 90) \<or> (97 \<le> n \<and> n \<le> 122) \<or> n = 170 \<or> n = 181 \<or> n = 186
         \<or> (192 \<le> n \<and> n \<le> 214) \<or> (216 \<le> n \<and> n \<le> 246) \<or> (248 \<le> n \<and> n \<le> 255))"

definition py_title_char :: "char \<Rightarrow> string" where
  "py_title_char c =
     (let n = (of_char c :: nat)
      in if (97 \<le> n \<and> n \<le> 122) \<or> (224 \<le> n \<and> n \<le> 254 \<and> n \<noteq> 247) then [char_of (n - 32)]
         else if n = 223 then ''Ss''
         else [c])"

fun py_title_from :: "bool \<Rightarrow> string \<Rightarrow> string" where
  "py_title_from prev [] = []"
| "py_title_from prev (c # cs) =
     (if prev then [py_lower_char c] else py_title_char c) @ py_title_from (py_cased c) cs"

definition py_title :: "string \<Rightarrow> string" where
  "py_title s = py_title_from False s"

section \<open>Directory scanner\<close>

definition default_exclude :: "string list" where
  "default_exclude = [''index.html'', ''index.template.html'']"

definition derived_title :: "string \<Rightarrow> string" where
  "derived_title name = py_title (py_replace ''_'' '' '' (py_replace ''-'' '' '' (path_stem name)))"

definition warning :: "string \<Rightarrow> string \<Rightarrow> string \<Rightarrow> string" where
  "warning dir name e = ''Warning: Could not read '' @ path_str dir name @ '': '' @ e"

text \<open>
  The loop of \<^verbatim>\<open>scan_tools\<close> over the globbed files. Its state is the list \<open>tools\<close>
  collected so far and the lines \<open>err\<close> printed to the error stream so far. It returns
  the lines printed and either the exception that left the loop or the collected list.
  In \<^verbatim>\<open>extract_title(content) or ...\<close> the empty string counts as false, like \<open>None\<close>.
\<close>

fun scan_loop ::
  "string \<Rightarrow> string list \<Rightarrow> (string \<times> read_result) list \<Rightarrow> ToolInfo list \<Rightarrow> string list
   \<Rightarrow> string list \<times> (error + ToolInfo list)" where
  "scan_loop dir exclude [] tools err = (err, Inr tools)"
| "scan_loop dir exclude ((name, r) # rest) tools err =
     (if py_lower name \<in> set (map py_lower exclude) then scan_loop dir exclude rest tools err
      else case r of
        ReadFails e \<Rightarrow> scan_loop dir exclude rest tools (err @ [warning dir name e])
      | NotUTF8 \<Rightarrow> (err, Inl UnicodeDecodeError)
      | Text content \<Rightarrow>
          (let title = (case extract_title content of
                          None \<Rightarrow> derived_title name
                        | Some t \<Rightarrow> if t \<noteq> [] then t else derived_title name)
           in case extract_description content of
                None \<Rightarrow> (err, Inl (MissingDescriptionError name))
              | Some d \<Rightarrow>
                  scan_loop dir exclude rest
                    (tools @ [\<lparr>filename = name, title = title, description = d\<rparr>]) err))"

text \<open>\<^verbatim>\<open>if exclude is None: exclude = [...]\<close>.\<close>

definition exclude_or_default :: "string list option \<Rightarrow> string list" where
  "exclude_or_default exclude = (case exclude of None \<Rightarrow> default_exclude | Some ex \<Rightarrow> ex)"

definition scan_collect ::
  "directory \<Rightarrow> string list option \<Rightarrow> string list \<times> (error + ToolInfo list)" where
  "scan_collect d exclude =
     scan_loop (dir_path d) (exclude_or_default exclude) (glob_html d) [] []"

text \<open>\<^verbatim>\<open>sorted(tools, key=lambda t: t.filename.lower())\<close> is a stable sort, as
  \<open>sort_key\<close> is.\<close>

definition scan_tools ::
  "directory \<Rightarrow> string list option \<Rightarrow> string list \<times> (error + ToolInfo list)" where
  "scan_tools d exclude =
     (case scan_collect d exclude of
        (err, Inl e) \<Rightarrow> (err, Inl e)
      | (err, Inr tools) \<Rightarrow> (err, Inr (sort_key (\<lambda>t. py_lower (filename t)) tools)))"

section \<open>Renderer\<close>

text \<open>\<^verbatim>\<open>html.escape(s)\<close> with its default \<^verbatim>\<open>quote=True\<close>: five replacements, the
  ampersand first.\<close>

definition html_escape :: "string \<Rightarrow> string" where
  "html_escape s =
     py_replace [squote] ''&#x27;''
       (py_replace [dquote] ''&quot;''
         (py_replace ''>'' ''&gt;''
           (py_replace ''<'' ''&lt;''
             (py_replace ''&'' ''&amp;'' s))))"

definition render_item :: "ToolInfo \<Rightarrow> string" where
  "render_item tool =
     (let title_html = html_escape (title tool);
          desc_html = ''<p>'' @ html_escape (description tool) @ ''</p>''
      in ''        <li class='' @ [dquote] @ ''tool-item'' @ [dquote] @ ''>'' @ [newline]
         @ ''            <a href='' @ [dquote] @ html_escape (filename tool) @ [dquote]
         @ '' class='' @ [dquote] @ ''tool-link'' @ [dquote] @ ''>'' @ [newline]
         @ ''                <span class='' @ [dquote] @ ''tool-title'' @ [dquote] @ ''>''
         @ title_html @ ''</span>'' @ [newline]
         @ ''            </a>'' @ desc_html @ [newline]
         @ ''        </li>'')"

definition render_tools_html :: "ToolInfo list \<Rightarrow> string" where
  "render_tools_html tools = py_join [newline] (map render_item tools)"

definition placeholder :: string where
  "placeholder = ''<!-- TOOLS_LIST -->''"

text \<open>\<^verbatim>\<open>generate_index_html\<close>; the second argument is what the file system holds at
  \<^verbatim>\<open>template_path\<close>.\<close>

definition generate_index_html :: "ToolInfo list \<Rightarrow> string \<Rightarrow> read_result option \<Rightarrow> error + string" where
  "generate_index_html tools template_path template_file =
     (case template_file of
        None \<Rightarrow> Inl (FileNotFoundError (''Template file not found: '' @ template_path))
      | Some (ReadFails e) \<Rightarrow> Inl (OSError e)
      | Some NotUTF8 \<Rightarrow> Inl UnicodeDecodeError
      | Some (Text template) \<Rightarrow> Inr (py_replace placeholder (render_tools_html tools) template))"

section \<open>Command line driver\<close>

text \<open>The parsed flags; \<open>write_arg\<close> is \<^verbatim>\<open>args.write\<close>, which \<^verbatim>\<open>main\<close> sets and never
  reads.\<close>

record args =
  check :: bool
  dry_run :: bool
  write_arg :: bool

text \<open>
  A run of \<^verbatim>\<open>main\<close>: how it ends (\<open>Inr\<close> the value returned, which becomes the exit
  status, or \<open>Inl\<close> the exception that nothing caught), the lines printed to the output
  and to the error stream, and the directory as the run leaves it.
\<close>

record run =
  outcome :: "error + int"
  out :: "string list"
  errs :: "string list"
  files :: directory

text \<open>An uncaught exception ends the interpreter with status 1.\<close>

definition exit_status :: "run \<Rightarrow> int" where
  "exit_status r = (case outcome r of Inl e \<Rightarrow> 1 | Inr n \<Rightarrow> n)"

fun show_nat :: "nat \<Rightarrow> string" where
  "show_nat n =
     (if n < 10 then [char_of (48 + n)] else show_nat (n div 10) @ [char_of (48 + n mod 10)])"

text \<open>\<^verbatim>\<open>read_text\<close> opens the file with universal newlines: a carriage return with
  its line feed, and a carriage return alone, are read as one line feed.\<close>

definition carriage_return :: char where
  "carriage_return = CHR 0x0D"

definition universal_newlines :: "string \<Rightarrow> string" where
  "universal_newlines s =
     py_replace [carriage_return] [newline]
       (py_replace [carriage_return, newline] [newline] s)"

text \<open>\<^verbatim>\<open>write_text\<close> on a POSIX system writes the text as it is; the entry of the file
  holds what \<^verbatim>\<open>read_text\<close> returns for it afterwards. A file that did not exist is
  created (the model puts it last in the enumeration).\<close>

definition write_text :: "directory \<Rightarrow> string \<Rightarrow> string \<Rightarrow> directory" where
  "write_text d name content =
     d\<lparr>dir_files :=
         (if name \<in> fst ` set (dir_files d)
          then map (\<lambda>(n, r). if n = name then (n, Text (universal_newlines content)) else (n, r))
                 (dir_files d)
          else dir_files d @ [(name, Text (universal_newlines content))])\<rparr>"

definition main :: "args \<Rightarrow> directory \<Rightarrow> run" where
  "main args0 repo_dir =
     (let args = (if dry_run args0 then args0\<lparr>write_arg := False\<rparr> else args0);
          index_path = ''index.html'';
          template_path = ''index.template.html'';
          (warnings, scanned) = scan_tools repo_dir None;
          crash = (\<lambda>e. \<lparr>outcome = Inl e, out = [], errs = warnings, files = repo_dir\<rparr>)
      in case scanned of
           Inl e \<Rightarrow> crash e
         | Inr tools \<Rightarrow>
            (case generate_index_html tools (path_str (dir_path repo_dir) template_path)
                    (map_of (dir_files repo_dir) template_path) of
               Inl e \<Rightarrow> crash e
             | Inr new_content \<Rightarrow>
                (case map_of (dir_files repo_dir) index_path of
                   Some (ReadFails e) \<Rightarrow> crash (OSError e)
                 | Some NotUTF8 \<Rightarrow> crash UnicodeDecodeError
                 | existing \<Rightarrow>
                    if existing = Some (Text new_content)
                    then \<lparr>outcome = Inr 0,
                          out = (if dry_run args \<or> check args
                                 then [''index.html is up to date.''] else []),
                          errs = warnings, files = repo_dir\<rparr>
                    else if check args
                    then \<lparr>outcome = Inr 1, out = [],
                          errs = warnings @ [''index.html is out of date.''],
                          files = repo_dir\<rparr>
                    else if dry_run args
                    then \<lparr>outcome = Inr 0,
                          out = [''index.html would be updated:'', replicate 60 CHR ''='',
                                 new_content, replicate 60 CHR ''=''],
                          errs = warnings, files = repo_dir\<rparr>
                    else (case dir_write_error repo_dir of
                            Some e \<Rightarrow> crash (OSError e)
                          | None \<Rightarrow>
                             \<lparr>outcome = Inr 0,
                              out = [''Generated index.html with ''
                                     @ show_nat (length tools) @ '' tool(s).''],
                              errs = warnings,
                              files = write_text repo_dir index_path new_content\<rparr>))))"

section \<open>Example directories\<close>


text \<open>A well-formed description tag with the quote character \<open>q\<close> and the value
  \<open>v\<close>, for the examples.\<close>

definition meta_tag :: "char \<Rightarrow> string \<Rightarrow> string" where
  "meta_tag q v =
     ''<meta name='' @ [q] @ ''description'' @ [q] @ '' content='' @ [q] @ v @ [q] @ ''>''"

text \<open>One tool whose description tag has an empty content.\<close>

definition empty_description_dir :: directory where
  "empty_description_dir =
     \<lparr>dir_path = ''/repo'',
      dir_files = [(''a.html'', Text (meta_tag dquote []))],
      dir_write_error = None\<rparr>"

text \<open>A file that is not UTF-8, enumerated before a file without a description tag.\<close>

definition undecodable_dir :: directory where
  "undecodable_dir =
     \<lparr>dir_path = ''/repo'',
      dir_files = [(''a.html'', NotUTF8), (''b.html'', Text ''<p>b</p>'')],
      dir_write_error = None\<rparr>"

text \<open>A file that cannot be read, enumerated before a good one.\<close>

definition unreadable_dir :: directory where
  "unreadable_dir =
     \<lparr>dir_path = ''/repo'',
      dir_files = [(''a.html'', ReadFails ''Permission denied''),
                   (''b.html'', Text (meta_tag squote ''Does B''))],
      dir_write_error = None\<rparr>"

text \<open>The two files of the spec's sorting example, enumerated in the other order.\<close>

definition banana_dir :: directory where
  "banana_dir =
     \<lparr>dir_path = ''/repo'',
      dir_files = [(''Banana.html'', Text (meta_tag dquote ''Does B'')),
                   (''apple.html'', Text (meta_tag dquote ''Does A''))],
      dir_write_error = None\<rparr>"

text \<open>A tool whose title element holds white space only.\<close>

definition blank_title_dir :: directory where
  "blank_title_dir =
     \<lparr>dir_path = ''/repo'',
      dir_files = [(''my-tool.html'', Text (''<title>  </title>'' @ meta_tag dquote ''Does it''))],
      dir_write_error = None\<rparr>"


text \<open>A file that cannot be read, enumerated before a file that is not UTF-8.\<close>

definition unreadable_first_dir :: directory where
  "unreadable_first_dir =
     \<lparr>dir_path = ''/repo'',
      dir_files = [(''a.html'', ReadFails ''Permission denied''), (''b.html'', NotUTF8)],
      dir_write_error = None\<rparr>"

text \<open>A file without a description tag, enumerated before a file that is not UTF-8.\<close>

definition tagless_first_dir :: directory where
  "tagless_first_dir =
     \<lparr>dir_path = ''/repo'',
      dir_files = [(''b.html'', Text ''<p>b</p>''), (''a.html'', NotUTF8)],
      dir_write_error = None\<rparr>"

text \<open>Two tools, the first with markup characters in its three fields.\<close>

definition script_tools :: "ToolInfo list" where
  "script_tools =
     [\<lparr>filename = ''a&b.html'', title = ''A <b> '' @ [dquote] @ ''B'' @ [dquote],
       description = ''<script>alert('' @ [squote] @ ''x'' @ [squote] @ '')</script>''\<rparr>,
      \<lparr>filename = ''c.html'', title = ''C'', description = ''Does C''\<rparr>]"

text \<open>A list of one tool, and a template in which the placeholder occurs twice.\<close>

definition one_tool :: "ToolInfo list" where
  "one_tool = [\<lparr>filename = ''a.html'', title = ''A'', description = ''Does A''\<rparr>]"

definition twice_template :: string where
  "twice_template = ''<ul>'' @ placeholder @ ''</ul><ol>'' @ placeholder @ ''</ol>''"

section \<open>Escaping, character by character\<close>

text \<open>What the spec asks of the renderer, in its words: each of the characters
  \<^verbatim>\<open>&\<close>, \<^verbatim>\<open><\<close>, \<^verbatim>\<open>>\<close> and the two quotes appears as its entity, every other character as
  itself. It is compared below with \<open>html_escape\<close>, the five replacements of the library.\<close>

definition escape_char :: "char \<Rightarrow> string" where
  "escape_char c =
     (if c = CHR ''&'' then ''&amp;''
      else if c = CHR ''<'' then ''&lt;''
      else if c = CHR ''>'' then ''&gt;''
      else if c = dquote then ''&quot;''
      else if c = squote then ''&#x27;''
      else [c])"

text \<open>The characters that make markup, and the characters that \<^verbatim>\<open>html.escape\<close> replaces.\<close>

definition markup_char :: "char \<Rightarrow> bool" where
  "markup_char c = (c = CHR ''<'' \<or> c = CHR ''>'' \<or> c = dquote \<or> c = squote)"

definition special_char :: "char \<Rightarrow> bool" where
  "special_char c = (c = CHR ''&'' \<or> markup_char c)"

text \<open>The markup characters of the fixed text of one list item, in their order: the tags
  \<^verbatim>\<open>li\<close>, \<^verbatim>\<open>a\<close> and \<^verbatim>\<open>span\<close> with their quoted attributes, then the five tags without
  attributes.\<close>

definition item_markup :: string where
  "item_markup =
     ''<'' @ [dquote, dquote] @ ''><'' @ [dquote, dquote, dquote, dquote] @ ''><''
     @ [dquote, dquote] @ ''><><><><><>''"

text \<open>The fixed text of one list item, cut where the three fields go: before the file
  name, between file name and title, between title and description, after the
  description.\<close>

definition item_head :: string where
  "item_head =
     ''        <li class='' @ [dquote] @ ''tool-item'' @ [dquote] @ ''>'' @ [newline]
     @ ''            <a href='' @ [dquote]"

definition item_mid :: string where
  "item_mid =
     [dquote] @ '' class='' @ [dquote] @ ''tool-link'' @ [dquote] @ ''>'' @ [newline]
     @ ''                <span class='' @ [dquote] @ ''tool-title'' @ [dquote] @ ''>''"

definition item_desc :: string where
  "item_desc = ''</span>'' @ [newline] @ ''            </a><p>''"

definition item_tail :: string where
  "item_tail = ''</p>'' @ [newline] @ ''        </li>''"

section \<open>The description tag, as the spec words it\<close>



section \<open>The texts that the description pattern matches\<close>


section \<open>Example pages\<close>





section \<open>The modes of the driver\<close>







section \<open>The scanning loop\<close>

lemma scan_loop_err:
  "scan_loop dir ex xs tools err =
     (err @ fst (scan_loop dir ex xs tools []), snd (scan_loop dir ex xs tools []))"
proof (induction xs arbitrary: tools err)
  case Nil
  show ?case by simp
next
  case (Cons x xs)
  obtain name r where x: "x = (name, r)" by (cases x)
  show ?case
  proof (cases r)
    case (Text content)
    then show ?thesis
      using Cons.IH [of _ err] x
      by (simp add: Let_def split: option.splits)
  next
    case (ReadFails e)
    then show ?thesis
      using Cons.IH [of tools "err @ [warning dir name e]"]
        Cons.IH [of tools "[warning dir name e]"] Cons.IH [of tools err] x
      by simp
  next
    case NotUTF8
    then show ?thesis
      using Cons.IH [of tools err] x by simp
  qed
qed

lemma scan_loop_append:
  "scan_loop dir ex (xs @ ys) tools err =
     (case scan_loop dir ex xs tools err of
        (err', Inl e) \<Rightarrow> (err', Inl e)
      | (err', Inr tools') \<Rightarrow> scan_loop dir ex ys tools' err')"
  by (induction xs arbitrary: tools err)
    (auto simp: Let_def split: read_result.splits option.splits)

text \<open>A property of entries that holds for the tools given to the loop, and for the entry
  made of any file that is read and has a description, holds for all tools returned.\<close>

lemma scan_loop_tools:
  assumes "scan_loop dir ex xs tools err = (err', Inr tools')"
    and "\<forall>t\<in>set tools. P t"
    and "\<And>name content d.
           (name, Text content) \<in> set xs \<Longrightarrow> py_lower name \<notin> set (map py_lower ex) \<Longrightarrow>
           extract_description content = Some d \<Longrightarrow>
           P \<lparr>filename = name,
              title = (case extract_title content of
                         None \<Rightarrow> derived_title name
                       | Some t \<Rightarrow> if t \<noteq> [] then t else derived_title name),
              description = d\<rparr>"
  shows "\<forall>t\<in>set tools'. P t"
  using assms
proof (induction xs arbitrary: tools err)
  case Nil
  then show ?case by simp
next
  case (Cons x xs)
  obtain name r where x: "x = (name, r)" by (cases x)
  have step: "\<And>name content d.
           (name, Text content) \<in> set xs \<Longrightarrow> py_lower name \<notin> set (map py_lower ex) \<Longrightarrow>
           extract_description content = Some d \<Longrightarrow>
           P \<lparr>filename = name,
              title = (case extract_title content of
                         None \<Rightarrow> derived_title name
                       | Some t \<Rightarrow> if t \<noteq> [] then t else derived_title name),
              description = d\<rparr>"
    using Cons.prems(3) by simp
  show ?case
  proof (cases "py_lower name \<in> set (map py_lower ex)")
    case True
    with Cons.prems(1) x have "scan_loop dir ex xs tools err = (err', Inr tools')" by simp
    from Cons.IH [OF this Cons.prems(2) step] show ?thesis .
  next
    case notex: False
    show ?thesis
    proof (cases r)
      case (Text content)
      show ?thesis
      proof (cases "extract_description content")
        case None
        with Cons.prems(1) x notex Text show ?thesis by (simp add: Let_def)
      next
        case (Some d)
        let ?t = "\<lparr>filename = name,
              title = (case extract_title content of
                         None \<Rightarrow> derived_title name
                       | Some t \<Rightarrow> if t \<noteq> [] then t else derived_title name),
              description = d\<rparr>"
        from Cons.prems(1) x notex Text Some
        have rest: "scan_loop dir ex xs (tools @ [?t]) err = (err', Inr tools')"
          by (simp add: Let_def)
        have "P ?t"
          using Cons.prems(3) [of name content d] x Text notex Some by simp
        with Cons.prems(2) have "\<forall>t\<in>set (tools @ [?t]). P t" by simp
        from Cons.IH [OF rest this step] show ?thesis .
      qed
    next
      case (ReadFails e)
      with Cons.prems(1) x notex
      have "scan_loop dir ex xs tools (err @ [warning dir name e]) = (err', Inr tools')" by simp
      from Cons.IH [OF this Cons.prems(2) step] show ?thesis .
    next
      case NotUTF8
      with Cons.prems(1) x notex show ?thesis by simp
    qed
  qed
qed

lemma scan_loop_described:
  assumes "scan_loop dir ex xs tools err = (err', Inr tools')"
    and "(name, Text content) \<in> set xs"
    and "py_lower name \<notin> set (map py_lower ex)"
  shows "extract_description content \<noteq> None"
  using assms
proof (induction xs arbitrary: tools err)
  case Nil
  then show ?case by simp
next
  case (Cons x xs)
  obtain n r where x: "x = (n, r)" by (cases x)
  show ?case
  proof (cases "x = (name, Text content)")
    case True
    with Cons.prems(1,3) x show ?thesis
      by (auto simp: Let_def split: option.splits)
  next
    case False
    with Cons.prems(2) have mem: "(name, Text content) \<in> set xs" by simp
    from Cons.prems(1) x obtain tools1 err1 where
      "scan_loop dir ex xs tools1 err1 = (err', Inr tools')"
      by (auto simp: Let_def split: if_splits read_result.splits option.splits)
    from Cons.IH [OF this mem Cons.prems(3)] show ?thesis .
  qed
qed

lemma scan_loop_no_abort:
  assumes "\<forall>(n, r)\<in>set xs.
             py_lower n \<in> set (map py_lower ex) \<or> (\<exists>e. r = ReadFails e)
             \<or> (\<exists>c d. r = Text c \<and> extract_description c = Some d)"
  shows "\<exists>err' tools'. scan_loop dir ex xs tools err = (err', Inr tools')"
  using assms
proof (induction xs arbitrary: tools err)
  case Nil
  show ?case by simp
next
  case (Cons x xs)
  obtain n r where x: "x = (n, r)" by (cases x)
  from Cons.prems have rest: "\<forall>(n, r)\<in>set xs.
             py_lower n \<in> set (map py_lower ex) \<or> (\<exists>e. r = ReadFails e)
             \<or> (\<exists>c d. r = Text c \<and> extract_description c = Some d)"
    by simp
  from Cons.prems x have
    "py_lower n \<in> set (map py_lower ex) \<or> (\<exists>e. r = ReadFails e)
     \<or> (\<exists>c d. r = Text c \<and> extract_description c = Some d)"
    by simp
  then show ?case
    using Cons.IH [OF rest] x by (auto simp: Let_def)
qed

lemma glob_html_files:
  "dir_files d = pre @ f # post \<Longrightarrow> suffix ''.html'' (fst f) \<Longrightarrow>
   glob_html d = glob_html (d\<lparr>dir_files := pre\<rparr>) @ f # glob_html (d\<lparr>dir_files := post\<rparr>)"
  by (cases f) (simp add: glob_html_def)

section \<open>Descriptions of the scanned tools\<close>

lemma empty_description_dir_scan:
  "scan_tools empty_description_dir None
     = ([], Inr [\<lparr>filename = ''a.html'', title = ''A'', description = []\<rparr>])"
  by code_simp

text \<open>
  Claim C1, as amended. Every entry returned by \<^verbatim>\<open>scan_tools\<close> has as description the
  trimmed value that \<^verbatim>\<open>extract_description\<close> finds in a file of that name (a value that
  may be the empty string); and a directory with a globbed, non-excluded, readable file in
  which \<^verbatim>\<open>extract_description\<close> finds nothing yields no list at all, the scan ending in
  an exception.
\<close>

theorem scan_tools_description:
  "(scan_tools d ex = (err, Inr tools) \<longrightarrow>
      (\<forall>t\<in>set tools. \<exists>content.
          (filename t, Text content) \<in> set (dir_files d)
          \<and> extract_description content = Some (description t)))
   \<and> ((\<exists>name content.
          (name, Text content) \<in> set (glob_html d)
          \<and> py_lower name \<notin> set (map py_lower (exclude_or_default ex))
          \<and> extract_description content = None) \<longrightarrow>
       (\<exists>e. snd (scan_tools d ex) = Inl e))"
proof (intro conjI impI)
  assume ok: "scan_tools d ex = (err, Inr tools)"
  then obtain collected where
    loop: "scan_loop (dir_path d) (exclude_or_default ex) (glob_html d) [] [] = (err, Inr collected)"
    and tools: "tools = sort_key (\<lambda>t. py_lower (filename t)) collected"
    by (auto simp: scan_tools_def scan_collect_def split: prod.splits sum.splits)
  have "\<forall>t\<in>set collected. \<exists>content.
          (filename t, Text content) \<in> set (dir_files d)
          \<and> extract_description content = Some (description t)"
  proof (rule scan_loop_tools [OF loop])
    show "\<forall>t\<in>set []. \<exists>content.
          (filename t, Text content) \<in> set (dir_files d)
          \<and> extract_description content = Some (description t)"
      by simp
  next
    fix name content dsc
    assume "(name, Text content) \<in> set (glob_html d)"
      and "extract_description content = Some dsc"
    then show "\<exists>contenta.
          (filename \<lparr>filename = name,
              title = (case extract_title content of
                         None \<Rightarrow> derived_title name
                       | Some t \<Rightarrow> if t \<noteq> [] then t else derived_title name),
              description = dsc\<rparr>, Text contenta) \<in> set (dir_files d)
          \<and> extract_description contenta = Some (description \<lparr>filename = name,
              title = (case extract_title content of
                         None \<Rightarrow> derived_title name
                       | Some t \<Rightarrow> if t \<noteq> [] then t else derived_title name),
              description = dsc\<rparr>)"
      by (auto simp: glob_html_def)
  qed
  with tools show "\<forall>t\<in>set tools. \<exists>content.
          (filename t, Text content) \<in> set (dir_files d)
          \<and> extract_description content = Some (description t)"
    by simp
next
  assume "\<exists>name content.
          (name, Text content) \<in> set (glob_html d)
          \<and> py_lower name \<notin> set (map py_lower (exclude_or_default ex))
          \<and> extract_description content = None"
  then obtain name content where
    mem: "(name, Text content) \<in> set (glob_html d)"
    and notex: "py_lower name \<notin> set (map py_lower (exclude_or_default ex))"
    and none: "extract_description content = None"
    by blast
  obtain err' r where
    loop: "scan_loop (dir_path d) (exclude_or_default ex) (glob_html d) [] [] = (err', r)"
    by (cases "scan_loop (dir_path d) (exclude_or_default ex) (glob_html d) [] []")
  show "\<exists>e. snd (scan_tools d ex) = Inl e"
  proof (cases r)
    case (Inl e)
    with loop show ?thesis by (simp add: scan_tools_def scan_collect_def)
  next
    case (Inr ts)
    with loop scan_loop_described [OF _ mem notex] none show ?thesis by blast
  qed
qed

theorem scan_tools_description_witness:
  "scan_tools empty_description_dir None
     = ([], Inr [\<lparr>filename = ''a.html'', title = ''A'', description = []\<rparr>])
   \<and> (\<exists>content. (''a.html'', Text content) \<in> set (dir_files empty_description_dir)
         \<and> extract_description content = Some [])
   \<and> (''b.html'', Text ''<p>b</p>'') \<in> set (glob_html undecodable_dir)
   \<and> py_lower ''b.html'' \<notin> set (map py_lower (exclude_or_default None))
   \<and> extract_description ''<p>b</p>'' = None
   \<and> (\<exists>e. snd (scan_tools undecodable_dir None) = Inl e)"
proof -
  have a: "(''b.html'', Text ''<p>b</p>'') \<in> set (glob_html undecodable_dir)"
    by code_simp
  have b: "py_lower ''b.html'' \<notin> set (map py_lower (exclude_or_default None))"
    by code_simp
  have c: "extract_description ''<p>b</p>'' = None"
    by code_simp
  from scan_tools_description [of empty_description_dir None "[]"
      "[\<lparr>filename = ''a.html'', title = ''A'', description = []\<rparr>]"]
    empty_description_dir_scan
  have "\<exists>content. (''a.html'', Text content) \<in> set (dir_files empty_description_dir)
         \<and> extract_description content = Some []"
    by simp
  moreover from scan_tools_description [of undecodable_dir None] a b c
  have "\<exists>e. snd (scan_tools undecodable_dir None) = Inl e"
    by blast
  ultimately show ?thesis
    using empty_description_dir_scan a b c by simp
qed

text \<open>
  Claim C1, as stated, fails: a description tag with an empty content attribute is a
  match, and its file becomes an entry whose description is the empty string.
\<close>

theorem scan_tools_empty_description:
  "snd (scan_tools empty_description_dir None)
     = Inr [\<lparr>filename = ''a.html'', title = ''A'', description = []\<rparr>]"
  by code_simp

section \<open>Files without a description, unreadable files, undecodable files\<close>

lemma scan_tools_Inl:
  "snd (scan_collect d ex) = Inl e \<Longrightarrow> snd (scan_tools d ex) = Inl e"
  by (cases "scan_collect d ex") (auto simp: scan_tools_def split: sum.splits)

lemma scan_tools_Inr:
  "snd (scan_collect d ex) = Inr ts \<Longrightarrow>
   snd (scan_tools d ex) = Inr (sort_key (\<lambda>t. py_lower (filename t)) ts)"
  by (cases "scan_collect d ex") (auto simp: scan_tools_def split: sum.splits)

lemma scan_tools_fst: "fst (scan_tools d ex) = fst (scan_collect d ex)"
  by (cases "scan_collect d ex") (auto simp: scan_tools_def split: sum.splits)

lemma scan_loop_abort_at:
  assumes "\<forall>(n, r)\<in>set pre.
             py_lower n \<in> set (map py_lower ex) \<or> (\<exists>e. r = ReadFails e)
             \<or> (\<exists>c d. r = Text c \<and> extract_description c = Some d)"
    and "snd (scan_loop dir ex (f # post) tools1 err1) = Inl e"
    and "\<And>tools err. snd (scan_loop dir ex (f # post) tools err) = snd (scan_loop dir ex (f # post) tools1 err1)"
  shows "snd (scan_loop dir ex (pre @ f # post) tools err) = Inl e"
proof -
  from scan_loop_no_abort [OF assms(1)] obtain err' tools' where
    "scan_loop dir ex pre tools err = (err', Inr tools')"
    by blast
  then have "scan_loop dir ex (pre @ f # post) tools err = scan_loop dir ex (f # post) tools' err'"
    by (simp add: scan_loop_append)
  with assms(2,3) show ?thesis by simp
qed

text \<open>
  Claim C3, as amended. Let a globbed, non-excluded, readable file have no description
  tag. Then \<^verbatim>\<open>scan_tools\<close> returns no list: it ends in an exception. When every file
  enumerated before it is excluded, or unreadable with an \<^verbatim>\<open>OSError\<close>, or read and holding
  a description, the exception is \<^verbatim>\<open>MissingDescriptionError\<close> with the name of that file.
\<close>

theorem scan_tools_missing_description:
  assumes files: "glob_html d = pre @ (name, Text content) # post"
    and notex: "py_lower name \<notin> set (map py_lower (exclude_or_default ex))"
    and none: "extract_description content = None"
  shows "(\<exists>e. snd (scan_tools d ex) = Inl e)
       \<and> ((\<forall>(n, r)\<in>set pre.
              py_lower n \<in> set (map py_lower (exclude_or_default ex)) \<or> (\<exists>e. r = ReadFails e)
              \<or> (\<exists>c dsc. r = Text c \<and> extract_description c = Some dsc)) \<longrightarrow>
           snd (scan_tools d ex) = Inl (MissingDescriptionError name))"
proof (intro conjI impI)
  obtain err r where
    loop: "scan_loop (dir_path d) (exclude_or_default ex) (glob_html d) [] [] = (err, r)"
    by (cases "scan_loop (dir_path d) (exclude_or_default ex) (glob_html d) [] []")
  have mem: "(name, Text content) \<in> set (glob_html d)"
    using files by simp
  show "\<exists>e. snd (scan_tools d ex) = Inl e"
  proof (cases r)
    case (Inl e)
    with loop show ?thesis by (simp add: scan_tools_def scan_collect_def)
  next
    case (Inr ts)
    with loop scan_loop_described [OF _ mem notex] none show ?thesis by blast
  qed
next
  assume pre: "\<forall>(n, r)\<in>set pre.
              py_lower n \<in> set (map py_lower (exclude_or_default ex)) \<or> (\<exists>e. r = ReadFails e)
              \<or> (\<exists>c dsc. r = Text c \<and> extract_description c = Some dsc)"
  have "snd (scan_loop (dir_path d) (exclude_or_default ex)
               (pre @ (name, Text content) # post) [] [])
          = Inl (MissingDescriptionError name)"
    by (rule scan_loop_abort_at [OF pre, of _ _ _ "[]" "[]"])
      (use notex none in \<open>simp_all add: Let_def\<close>)
  then show "snd (scan_tools d ex) = Inl (MissingDescriptionError name)"
    by (intro scan_tools_Inl) (simp add: scan_collect_def files)
qed


theorem scan_tools_missing_description_witness:
  "glob_html undecodable_dir = [(''a.html'', NotUTF8)] @ (''b.html'', Text ''<p>b</p>'') # []
   \<and> glob_html (undecodable_dir\<lparr>dir_files := tl (dir_files undecodable_dir)\<rparr>)
       = [] @ (''b.html'', Text ''<p>b</p>'') # []
   \<and> py_lower ''b.html'' \<notin> set (map py_lower (exclude_or_default None))
   \<and> extract_description ''<p>b</p>'' = None
   \<and> (\<exists>e. snd (scan_tools undecodable_dir None) = Inl e)
   \<and> snd (scan_tools (undecodable_dir\<lparr>dir_files := tl (dir_files undecodable_dir)\<rparr>) None)
       = Inl (MissingDescriptionError ''b.html'')"
proof -
  have a: "glob_html undecodable_dir
             = [(''a.html'', NotUTF8)] @ (''b.html'', Text ''<p>b</p>'') # []"
    by code_simp
  have a': "glob_html (undecodable_dir\<lparr>dir_files := tl (dir_files undecodable_dir)\<rparr>)
             = [] @ (''b.html'', Text ''<p>b</p>'') # []"
    by code_simp
  have b: "py_lower ''b.html'' \<notin> set (map py_lower (exclude_or_default None))"
    by code_simp
  have c: "extract_description ''<p>b</p>'' = None"
    by code_simp
  from scan_tools_missing_description [OF a b c]
  have 1: "\<exists>e. snd (scan_tools undecodable_dir None) = Inl e" by blast
  from scan_tools_missing_description [OF a' b c]
  have 2: "snd (scan_tools (undecodable_dir\<lparr>dir_files := tl (dir_files undecodable_dir)\<rparr>) None)
       = Inl (MissingDescriptionError ''b.html'')"
    by simp
  from a a' b c 1 2 show ?thesis by blast
qed

text \<open>
  Claim C3, as stated, fails: in \<open>undecodable_dir\<close> the file \<^verbatim>\<open>b.html\<close> is globbed, not
  excluded, readable and without a description tag, and the scan does not raise
  \<^verbatim>\<open>MissingDescriptionError\<close> for it: the file enumerated before it is not UTF-8 and the
  scan ends there, in \<^verbatim>\<open>UnicodeDecodeError\<close>.
\<close>

theorem scan_tools_not_missing_description:
  "(''b.html'', Text ''<p>b</p>'') \<in> set (glob_html undecodable_dir)
   \<and> py_lower ''b.html'' \<notin> set (map py_lower (exclude_or_default None))
   \<and> extract_description ''<p>b</p>'' = None
   \<and> scan_tools undecodable_dir None = ([], Inl UnicodeDecodeError)
   \<and> snd (scan_tools undecodable_dir None) \<noteq> Inl (MissingDescriptionError ''b.html'')"
  by code_simp

lemma scan_tools_snd:
  "snd (scan_tools d ex)
     = (case snd (scan_collect d ex) of
          Inl e \<Rightarrow> Inl e
        | Inr ts \<Rightarrow> Inr (sort_key (\<lambda>t. py_lower (filename t)) ts))"
  by (cases "scan_collect d ex") (auto simp: scan_tools_def split: sum.splits)

lemma unreadable_dir_files:
  "dir_files unreadable_dir
     = [] @ (''a.html'', ReadFails ''Permission denied'')
          # [(''b.html'', Text (meta_tag squote ''Does B''))]"
  by (simp add: unreadable_dir_def)

text \<open>
  Claim C5. Let reading a globbed, non-excluded file fail with an \<^verbatim>\<open>OSError\<close>. The
  outcome of \<^verbatim>\<open>scan_tools\<close> (the list, or the exception of another file) is the outcome
  for the directory without that file: the file is left out and the files after it are
  scanned. The lines on the error stream are those of the files before it, then, when
  the scan of these files has not ended in an exception, the warning for the file and the
  lines of the files after it.
\<close>

theorem scan_tools_read_failure:
  assumes files: "dir_files d = pre @ (name, ReadFails e) # post"
    and html: "suffix ''.html'' name"
    and notex: "py_lower name \<notin> set (map py_lower (exclude_or_default ex))"
  shows "snd (scan_tools d ex) = snd (scan_tools (d\<lparr>dir_files := pre @ post\<rparr>) ex)
       \<and> (case scan_collect (d\<lparr>dir_files := pre\<rparr>) ex of
            (err, Inl x) \<Rightarrow> scan_tools d ex = (err, Inl x)
          | (err, Inr tools) \<Rightarrow>
              fst (scan_tools d ex)
                = err @ [warning (dir_path d) name e]
                    @ fst (scan_loop (dir_path d) (exclude_or_default ex)
                             (glob_html (d\<lparr>dir_files := post\<rparr>)) tools []))"
proof -
  let ?dir = "dir_path d" and ?ex = "exclude_or_default ex"
  let ?pre = "glob_html (d\<lparr>dir_files := pre\<rparr>)" and ?post = "glob_html (d\<lparr>dir_files := post\<rparr>)"
  have g: "glob_html d = ?pre @ (name, ReadFails e) # ?post"
    using glob_html_files [OF files] html by simp
  have g': "glob_html (d\<lparr>dir_files := pre @ post\<rparr>) = ?pre @ ?post"
    by (simp add: glob_html_def)
  obtain err r where pre: "scan_loop ?dir ?ex ?pre [] [] = (err, r)"
    by (cases "scan_loop ?dir ?ex ?pre [] []")
  show ?thesis
  proof (cases r)
    case (Inl x)
    with pre g g' show ?thesis
      by (simp add: scan_tools_def scan_collect_def scan_loop_append)
  next
    case (Inr tools)
    have with_file: "scan_collect d ex
        = scan_loop ?dir ?ex ?post tools (err @ [warning ?dir name e])"
      using pre Inr g notex by (simp add: scan_collect_def scan_loop_append)
    have without: "scan_collect (d\<lparr>dir_files := pre @ post\<rparr>) ex
        = scan_loop ?dir ?ex ?post tools err"
      using pre Inr g' by (simp add: scan_collect_def scan_loop_append)
    have "snd (scan_collect d ex) = snd (scan_collect (d\<lparr>dir_files := pre @ post\<rparr>) ex)"
      unfolding with_file without
      using scan_loop_err [of ?dir ?ex ?post tools "err @ [warning ?dir name e]"]
        scan_loop_err [of ?dir ?ex ?post tools err]
      by simp
    then have 1: "snd (scan_tools d ex) = snd (scan_tools (d\<lparr>dir_files := pre @ post\<rparr>) ex)"
      by (simp add: scan_tools_snd)
    have 2: "fst (scan_tools d ex)
        = err @ [warning ?dir name e] @ fst (scan_loop ?dir ?ex ?post tools [])"
      unfolding scan_tools_fst with_file
      using scan_loop_err [of ?dir ?ex ?post tools "err @ [warning ?dir name e]"]
      by simp
    from 1 2 pre Inr show ?thesis
      by (simp add: scan_collect_def)
  qed
qed

theorem scan_tools_read_failure_witness:
  "dir_files unreadable_dir
     = [] @ (''a.html'', ReadFails ''Permission denied'')
          # [(''b.html'', Text (meta_tag squote ''Does B''))]
   \<and> suffix ''.html'' ''a.html''
   \<and> py_lower ''a.html'' \<notin> set (map py_lower (exclude_or_default None))
   \<and> scan_tools unreadable_dir None
       = ([''Warning: Could not read /repo/a.html: Permission denied''],
          Inr [\<lparr>filename = ''b.html'', title = ''B'', description = ''Does B''\<rparr>])"
proof -
  have html: "suffix ''.html'' ''a.html''"
    by code_simp
  have notex: "py_lower ''a.html'' \<notin> set (map py_lower (exclude_or_default None))"
    by code_simp
  have rest: "scan_tools (unreadable_dir\<lparr>dir_files := [(''b.html'', Text (meta_tag squote ''Does B''))]\<rparr>) None
       = ([], Inr [\<lparr>filename = ''b.html'', title = ''B'', description = ''Does B''\<rparr>])"
    by code_simp
  have pre: "scan_collect (unreadable_dir\<lparr>dir_files := []\<rparr>) None = ([], Inr [])"
    by code_simp
  have post: "fst (scan_loop (dir_path unreadable_dir) (exclude_or_default None)
       (glob_html (unreadable_dir\<lparr>dir_files := [(''b.html'', Text (meta_tag squote ''Does B''))]\<rparr>)) [] []) = []"
    by code_simp
  have w: "warning (dir_path unreadable_dir) ''a.html'' ''Permission denied''
             = ''Warning: Could not read /repo/a.html: Permission denied''"
    by code_simp
  from scan_tools_read_failure [OF unreadable_dir_files html notex]
  have "scan_tools unreadable_dir None
       = ([''Warning: Could not read /repo/a.html: Permission denied''],
          Inr [\<lparr>filename = ''b.html'', title = ''B'', description = ''Does B''\<rparr>])"
    by (simp add: rest pre post w prod_eq_iff)
  with unreadable_dir_files html notex show ?thesis by blast
qed

lemma main_scan_fails:
  "snd (scan_tools d None) = Inl e \<Longrightarrow>
   main a d = \<lparr>outcome = Inl e, out = [], errs = fst (scan_tools d None), files = d\<rparr>"
  by (cases "scan_tools d None") (simp add: main_def Let_def)

lemma scan_loop_decoded:
  assumes "scan_loop dir ex xs tools err = (err', Inr tools')"
    and "(name, NotUTF8) \<in> set xs"
  shows "py_lower name \<in> set (map py_lower ex)"
  using assms
proof (induction xs arbitrary: tools err)
  case Nil
  then show ?case by simp
next
  case (Cons x xs)
  show ?case
  proof (cases "x = (name, NotUTF8)")
    case True
    with Cons.prems(1) show ?thesis
      by (auto split: if_splits)
  next
    case False
    with Cons.prems(2) have mem: "(name, NotUTF8) \<in> set xs" by simp
    obtain n r where x: "x = (n, r)" by (cases x)
    from Cons.prems(1) x obtain tools1 err1 where
      "scan_loop dir ex xs tools1 err1 = (err', Inr tools')"
      by (auto simp: Let_def split: if_splits read_result.splits option.splits)
    from Cons.IH [OF this mem] show ?thesis .
  qed
qed

text \<open>
  Claim C9, as amended. Let a globbed, non-excluded file be no valid UTF-8. Then
  \<^verbatim>\<open>scan_tools\<close> returns no list: the scan ends in an exception, and \<^verbatim>\<open>main\<close>, which scans
  with the default exclusions and catches nothing, ends with that exception, status 1,
  nothing printed to the output, the directory as it was. When every file enumerated
  before that file is excluded, or unreadable with an \<^verbatim>\<open>OSError\<close>, or read and holding a
  description, the exception is \<^verbatim>\<open>UnicodeDecodeError\<close>, and the error stream holds the lines
  of the files before that file only: the file is not skipped with a warning.
\<close>

theorem scan_tools_undecodable:
  assumes files: "glob_html d = pre @ (name, NotUTF8) # post"
    and notex: "py_lower name \<notin> set (map py_lower (exclude_or_default ex))"
  shows "(\<exists>e. snd (scan_tools d ex) = Inl e)
       \<and> (ex = None \<longrightarrow>
            (\<exists>e. outcome (main a d) = Inl e) \<and> exit_status (main a d) = 1
            \<and> out (main a d) = [] \<and> files (main a d) = d)
       \<and> ((\<forall>(n, r)\<in>set pre.
              py_lower n \<in> set (map py_lower (exclude_or_default ex)) \<or> (\<exists>e. r = ReadFails e)
              \<or> (\<exists>c dsc. r = Text c \<and> extract_description c = Some dsc)) \<longrightarrow>
           scan_tools d ex
             = (fst (scan_loop (dir_path d) (exclude_or_default ex) pre [] []),
                Inl UnicodeDecodeError)
           \<and> (ex = None \<longrightarrow> outcome (main a d) = Inl UnicodeDecodeError))"
proof (intro conjI impI)
  have mem: "(name, NotUTF8) \<in> set (glob_html d)"
    using files by simp
  obtain err r where
    loop: "scan_loop (dir_path d) (exclude_or_default ex) (glob_html d) [] [] = (err, r)"
    by (cases "scan_loop (dir_path d) (exclude_or_default ex) (glob_html d) [] []")
  show abort: "\<exists>e. snd (scan_tools d ex) = Inl e"
  proof (cases r)
    case (Inl e)
    with loop show ?thesis by (simp add: scan_tools_def scan_collect_def)
  next
    case (Inr ts)
    with loop scan_loop_decoded [OF _ mem] notex show ?thesis by blast
  qed
  {
    assume "ex = None"
    with abort obtain e where "snd (scan_tools d None) = Inl e" by blast
    from main_scan_fails [OF this, of a]
    show "\<exists>e. outcome (main a d) = Inl e" and "exit_status (main a d) = 1"
      and "out (main a d) = []" and "files (main a d) = d"
      by (simp_all add: exit_status_def)
  }
  {
    assume pre: "\<forall>(n, r)\<in>set pre.
              py_lower n \<in> set (map py_lower (exclude_or_default ex)) \<or> (\<exists>e. r = ReadFails e)
              \<or> (\<exists>c dsc. r = Text c \<and> extract_description c = Some dsc)"
    from scan_loop_no_abort [OF pre] obtain err' tools' where
      p: "scan_loop (dir_path d) (exclude_or_default ex) pre [] [] = (err', Inr tools')"
      by blast
    have "scan_collect d ex = (err', Inl UnicodeDecodeError)"
      using p notex by (simp add: scan_collect_def files scan_loop_append)
    then show scan: "scan_tools d ex
             = (fst (scan_loop (dir_path d) (exclude_or_default ex) pre [] []),
                Inl UnicodeDecodeError)"
      using p by (simp add: scan_tools_def)
    assume "ex = None"
    with scan have "snd (scan_tools d None) = Inl UnicodeDecodeError" by simp
    from main_scan_fails [OF this, of a]
    show "outcome (main a d) = Inl UnicodeDecodeError" by simp
  }
qed

theorem scan_tools_undecodable_witness:
  "glob_html unreadable_first_dir
     = [(''a.html'', ReadFails ''Permission denied'')] @ (''b.html'', NotUTF8) # []
   \<and> py_lower ''b.html'' \<notin> set (map py_lower (exclude_or_default None))
   \<and> scan_tools unreadable_first_dir None
       = ([''Warning: Could not read /repo/a.html: Permission denied''], Inl UnicodeDecodeError)
   \<and> outcome (main \<lparr>check = False, dry_run = False, write_arg = True\<rparr> unreadable_first_dir)
       = Inl UnicodeDecodeError
   \<and> exit_status (main \<lparr>check = False, dry_run = False, write_arg = True\<rparr> unreadable_first_dir)
       = 1
   \<and> out (main \<lparr>check = False, dry_run = False, write_arg = True\<rparr> unreadable_first_dir) = []
   \<and> files (main \<lparr>check = False, dry_run = False, write_arg = True\<rparr> unreadable_first_dir)
       = unreadable_first_dir"
proof -
  have a: "glob_html unreadable_first_dir
     = [(''a.html'', ReadFails ''Permission denied'')] @ (''b.html'', NotUTF8) # []"
    by code_simp
  have b: "py_lower ''b.html'' \<notin> set (map py_lower (exclude_or_default None))"
    by code_simp
  have c: "\<forall>(n, r)\<in>set [(''a.html'', ReadFails ''Permission denied'')].
              py_lower n \<in> set (map py_lower (exclude_or_default None)) \<or> (\<exists>e. r = ReadFails e)
              \<or> (\<exists>c dsc. r = Text c \<and> extract_description c = Some dsc)"
    by simp
  have w: "fst (scan_loop (dir_path unreadable_first_dir) (exclude_or_default None)
                  [(''a.html'', ReadFails ''Permission denied'')] [] [])
           = [''Warning: Could not read /repo/a.html: Permission denied'']"
    by code_simp
  from scan_tools_undecodable [OF a b,
      of "\<lparr>check = False, dry_run = False, write_arg = True\<rparr>"] c
  have "scan_tools unreadable_first_dir None
       = ([''Warning: Could not read /repo/a.html: Permission denied''], Inl UnicodeDecodeError)"
    and "outcome (main \<lparr>check = False, dry_run = False, write_arg = True\<rparr> unreadable_first_dir)
       = Inl UnicodeDecodeError"
    and "exit_status (main \<lparr>check = False, dry_run = False, write_arg = True\<rparr> unreadable_first_dir)
       = 1"
    and "out (main \<lparr>check = False, dry_run = False, write_arg = True\<rparr> unreadable_first_dir) = []"
    and "files (main \<lparr>check = False, dry_run = False, write_arg = True\<rparr> unreadable_first_dir)
       = unreadable_first_dir"
    unfolding w by blast+
  with a b show ?thesis by blast
qed

text \<open>
  Claim C9, as stated, fails: in \<open>tagless_first_dir\<close> the file \<^verbatim>\<open>a.html\<close> is globbed, not
  excluded and not UTF-8, and no decoding error is propagated: the scan has ended before,
  at \<^verbatim>\<open>b.html\<close>, in \<^verbatim>\<open>MissingDescriptionError\<close>.
\<close>

theorem scan_tools_not_undecodable:
  "(''a.html'', NotUTF8) \<in> set (glob_html tagless_first_dir)
   \<and> py_lower ''a.html'' \<notin> set (map py_lower (exclude_or_default None))
   \<and> scan_tools tagless_first_dir None = ([], Inl (MissingDescriptionError ''b.html''))
   \<and> snd (scan_tools tagless_first_dir None) \<noteq> Inl UnicodeDecodeError"
  by code_simp

section \<open>Titles of the scanned tools\<close>

lemma py_strip_all_space:
  assumes "\<forall>c\<in>set (py_strip s). py_isspace c"
  shows "py_strip s = []"
proof (rule ccontr)
  let ?y = "dropWhile py_isspace (rev (dropWhile py_isspace s))"
  assume "py_strip s \<noteq> []"
  then have ne: "?y \<noteq> []" by (simp add: py_strip_def)
  then have "\<not> py_isspace (hd ?y)" by (rule hd_dropWhile)
  moreover have "hd ?y \<in> set (py_strip s)"
    using ne by (simp add: py_strip_def)
  ultimately show False using assms by blast
qed

lemma extract_title_all_space:
  "extract_title content = Some x \<Longrightarrow> \<forall>c\<in>set x. py_isspace c \<Longrightarrow> x = []"
  by (auto simp: extract_title_def dest: py_strip_all_space)

lemma path_stem_nonempty: "name \<noteq> [] \<Longrightarrow> path_stem name \<noteq> []"
  by (auto simp: path_stem_def split: option.splits)

lemma py_replace_nonempty: "s \<noteq> [] \<Longrightarrow> new \<noteq> [] \<Longrightarrow> py_replace old new s \<noteq> []"
  by (cases s) (auto simp: py_replace_def)

lemma py_title_nonempty: "s \<noteq> [] \<Longrightarrow> py_title s \<noteq> []"
  by (cases s) (auto simp: py_title_def py_title_char_def Let_def)

lemma derived_title_nonempty: "name \<noteq> [] \<Longrightarrow> derived_title name \<noteq> []"
  by (simp add: derived_title_def py_title_nonempty py_replace_nonempty path_stem_nonempty)

lemma glob_html_nonempty: "(name, r) \<in> set (glob_html d) \<Longrightarrow> name \<noteq> []"
  by (auto simp: glob_html_def)

lemma blank_title_dir_scan:
  "scan_tools blank_title_dir None
     = ([], Inr [\<lparr>filename = ''my-tool.html'', title = ''My Tool'', description = ''Does it''\<rparr>])"
  by code_simp

text \<open>
  Claim C10. Every entry returned by \<^verbatim>\<open>scan_tools\<close> has a title that is not empty, and
  comes from a globbed file of its name such that, when \<^verbatim>\<open>extract_title\<close> finds no title
  in the file or finds one that is empty or made of white space only, the title of the
  entry is the one derived from the file name: the stem, with hyphens and underscores
  replaced by spaces, in title case.
\<close>

theorem scan_tools_title:
  assumes scan: "scan_tools d ex = (err, Inr tools)"
    and t: "t \<in> set tools"
  shows "title t \<noteq> []
       \<and> (\<exists>content.
            (filename t, Text content) \<in> set (glob_html d)
            \<and> ((extract_title content = None
                 \<or> (\<exists>x. extract_title content = Some x \<and> (\<forall>c\<in>set x. py_isspace c))) \<longrightarrow>
                title t
                  = py_title (py_replace ''_'' '' '' (py_replace ''-'' '' ''
                      (path_stem (filename t))))))"
proof -
  let ?P = "\<lambda>t. title t \<noteq> []
       \<and> (\<exists>content.
            (filename t, Text content) \<in> set (glob_html d)
            \<and> ((extract_title content = None
                 \<or> (\<exists>x. extract_title content = Some x \<and> (\<forall>c\<in>set x. py_isspace c))) \<longrightarrow>
                title t = derived_title (filename t)))"
  from scan obtain collected where
    loop: "scan_loop (dir_path d) (exclude_or_default ex) (glob_html d) [] [] = (err, Inr collected)"
    and tools: "tools = sort_key (\<lambda>t. py_lower (filename t)) collected"
    by (auto simp: scan_tools_def scan_collect_def split: prod.splits sum.splits)
  have "\<forall>t\<in>set collected. ?P t"
  proof (rule scan_loop_tools [OF loop])
    show "\<forall>t\<in>set []. ?P t" by simp
  next
    fix name content dsc
    assume mem: "(name, Text content) \<in> set (glob_html d)"
    let ?t = "\<lparr>filename = name,
              title = (case extract_title content of
                         None \<Rightarrow> derived_title name
                       | Some t \<Rightarrow> if t \<noteq> [] then t else derived_title name),
              description = dsc\<rparr>"
    have ne: "derived_title name \<noteq> []"
      using mem by (intro derived_title_nonempty) (rule glob_html_nonempty)
    then have 1: "title ?t \<noteq> []"
      by (simp split: option.splits)
    have 2: "(extract_title content = None
                 \<or> (\<exists>x. extract_title content = Some x \<and> (\<forall>c\<in>set x. py_isspace c))) \<longrightarrow>
                title ?t = derived_title (filename ?t)"
      using extract_title_all_space [of content] by (auto split: option.splits)
    from 1 2 mem show "?P ?t"
      by (intro conjI exI [of _ content]) simp_all
  qed
  with tools t have "?P t" by simp
  then show ?thesis by (simp add: derived_title_def)
qed

theorem scan_tools_title_witness:
  "scan_tools blank_title_dir None
     = ([], Inr [\<lparr>filename = ''my-tool.html'', title = ''My Tool'', description = ''Does it''\<rparr>])
   \<and> extract_title (''<title>  </title>'' @ meta_tag dquote ''Does it'') = Some []
   \<and> ''My Tool'' \<noteq> []
   \<and> (\<exists>content.
         (''my-tool.html'', Text content) \<in> set (glob_html blank_title_dir)
         \<and> ''My Tool''
             = py_title (py_replace ''_'' '' '' (py_replace ''-'' '' '' (path_stem ''my-tool.html''))))"
proof -
  have x: "extract_title (''<title>  </title>'' @ meta_tag dquote ''Does it'') = Some []"
    by code_simp
  have y: "''My Tool''
             = py_title (py_replace ''_'' '' '' (py_replace ''-'' '' '' (path_stem ''my-tool.html'')))"
    by code_simp
  from scan_tools_title [OF blank_title_dir_scan,
      of "\<lparr>filename = ''my-tool.html'', title = ''My Tool'', description = ''Does it''\<rparr>"]
  obtain content where
    mem: "(''my-tool.html'', Text content) \<in> set (glob_html blank_title_dir)"
    by auto
  have z: "''My Tool'' \<noteq> []" by simp
  show ?thesis
    by (intro conjI exI [of _ content]) (rule blank_title_dir_scan x y z mem)+
qed

section \<open>Order of the scanned tools\<close>

lemma banana_dir_collect:
  "scan_collect banana_dir None
     = ([], Inr [\<lparr>filename = ''Banana.html'', title = ''Banana'', description = ''Does B''\<rparr>,
                 \<lparr>filename = ''apple.html'', title = ''Apple'', description = ''Does A''\<rparr>])"
  by code_simp

lemma banana_dir_scan:
  "scan_tools banana_dir None
     = ([], Inr [\<lparr>filename = ''apple.html'', title = ''Apple'', description = ''Does A''\<rparr>,
                 \<lparr>filename = ''Banana.html'', title = ''Banana'', description = ''Does B''\<rparr>])"
  by code_simp

text \<open>
  Claim C6. The list returned by \<^verbatim>\<open>scan_tools\<close> is sorted by the lower-cased file
  name, strings being compared lexicographically by code point; it is the list collected
  in enumeration order, rearranged, and the sort is stable: the entries with one and the
  same lower-cased file name come in the order in which they were collected. The
  directory in which \<^verbatim>\<open>Banana.html\<close> is enumerated before \<^verbatim>\<open>apple.html\<close> yields
  \<^verbatim>\<open>apple.html\<close>, then \<^verbatim>\<open>Banana.html\<close>.
\<close>

theorem scan_tools_sorted:
  "(scan_tools d ex = (err, Inr tools) \<longrightarrow>
      sorted (map (\<lambda>t. py_lower (filename t)) tools)
      \<and> (\<exists>collected.
            scan_collect d ex = (err, Inr collected)
            \<and> mset tools = mset collected
            \<and> (\<forall>k. filter (\<lambda>t. py_lower (filename t) = k) tools
                     = filter (\<lambda>t. py_lower (filename t) = k) collected)))
   \<and> map filename (projr (snd (scan_tools banana_dir None))) = [''apple.html'', ''Banana.html'']"
proof (intro conjI impI)
  assume scan: "scan_tools d ex = (err, Inr tools)"
  then obtain collected where
    coll: "scan_collect d ex = (err, Inr collected)"
    and tools: "tools = sort_key (\<lambda>t. py_lower (filename t)) collected"
    by (auto simp: scan_tools_def split: prod.splits sum.splits)
  show "sorted (map (\<lambda>t. py_lower (filename t)) tools)"
    unfolding tools by (rule sorted_sort_key)
  show "\<exists>collected.
            scan_collect d ex = (err, Inr collected)
            \<and> mset tools = mset collected
            \<and> (\<forall>k. filter (\<lambda>t. py_lower (filename t) = k) tools
                     = filter (\<lambda>t. py_lower (filename t) = k) collected)"
    using coll unfolding tools by (auto simp: sort_key_stable)
next
  show "map filename (projr (snd (scan_tools banana_dir None))) = [''apple.html'', ''Banana.html'']"
    by (simp add: banana_dir_scan)
qed

theorem scan_tools_sorted_witness:
  "scan_tools banana_dir None
     = ([], Inr [\<lparr>filename = ''apple.html'', title = ''Apple'', description = ''Does A''\<rparr>,
                 \<lparr>filename = ''Banana.html'', title = ''Banana'', description = ''Does B''\<rparr>])
   \<and> sorted [''apple.html'', ''banana.html'']
   \<and> ''Banana.html'' < ''apple.html''"
proof -
  have l: "map (\<lambda>t. py_lower (filename t))
             [\<lparr>filename = ''apple.html'', title = ''Apple'', description = ''Does A''\<rparr>,
              \<lparr>filename = ''Banana.html'', title = ''Banana'', description = ''Does B''\<rparr>]
           = [''apple.html'', ''banana.html'']"
    by code_simp
  from scan_tools_sorted [of banana_dir None "[]"
      "[\<lparr>filename = ''apple.html'', title = ''Apple'', description = ''Does A''\<rparr>,
        \<lparr>filename = ''Banana.html'', title = ''Banana'', description = ''Does B''\<rparr>]"]
    banana_dir_scan
  have "sorted (map (\<lambda>t. py_lower (filename t))
             [\<lparr>filename = ''apple.html'', title = ''Apple'', description = ''Does A''\<rparr>,
              \<lparr>filename = ''Banana.html'', title = ''Banana'', description = ''Does B''\<rparr>])"
    by blast
  then have s: "sorted [''apple.html'', ''banana.html'']"
    unfolding l .
  have n: "''Banana.html'' < ''apple.html''"
    by code_simp
  from banana_dir_scan s n show ?thesis by blast
qed

section \<open>Escaping in the rendered fragment\<close>

lemma py_replace_char:
  "py_replace [a] new s = concat (map (\<lambda>c. if c = a then new else [c]) s)"
  by (induction s) (auto simp: py_replace_def)

lemma concat_map_concat_map:
  "concat (map f (concat (map g s))) = concat (map (\<lambda>c. concat (map f (g c))) s)"
  by (induction s) simp_all

lemma escape_char_replacements:
  "concat (map (\<lambda>c. concat (map (\<lambda>c. concat (map (\<lambda>c. concat
       (map (\<lambda>c. if c = squote then ''&#x27;'' else [c])
          (if c = dquote then ''&quot;'' else [c])))
        (if c = CHR ''>'' then ''&gt;'' else [c])))
      (if c = CHR ''<'' then ''&lt;'' else [c])))
    (if c = CHR ''&'' then ''&amp;'' else [c]))
   = escape_char c"
  by (simp add: escape_char_def dquote_def squote_def)

lemma html_escape_chars: "html_escape s = concat (map escape_char s)"
  by (simp add: html_escape_def py_replace_char concat_map_concat_map
      escape_char_replacements)

lemma escape_char_no_markup: "x \<in> set (escape_char c) \<Longrightarrow> \<not> markup_char x"
  by (auto simp: escape_char_def markup_char_def dquote_def squote_def split: if_splits)

lemma html_escape_no_markup: "filter markup_char (html_escape s) = []"
  unfolding html_escape_chars filter_empty_conv
  using escape_char_no_markup by auto

lemma escape_char_ampersands:
  "filter (\<lambda>x. x = CHR ''&'') (escape_char c) = (if special_char c then ''&'' else [])"
  by (simp add: escape_char_def special_char_def markup_char_def dquote_def squote_def)

lemma html_escape_ampersands:
  "length (filter (\<lambda>x. x = CHR ''&'') (html_escape s)) = length (filter special_char s)"
  unfolding html_escape_chars
  by (induction s) (simp_all add: escape_char_ampersands)

lemma sublist_py_join: "x \<in> set xs \<Longrightarrow> sublist x (py_join sep xs)"
proof (induction sep xs rule: py_join.induct)
  case (1 sep)
  then show ?case by simp
next
  case (2 sep y)
  then show ?case by simp
next
  case (3 sep y z zs)
  show ?case
  proof (cases "x = y")
    case True
    then show ?thesis by simp
  next
    case False
    with "3.prems" have "x \<in> set (z # zs)" by simp
    then have "sublist x (py_join sep (z # zs))" by (rule "3.IH")
    moreover have "sublist (py_join sep (z # zs)) ((y @ sep) @ py_join sep (z # zs))"
      by (rule sublist_append_leftI)
    ultimately show ?thesis
      using sublist_order.order_trans by fastforce
  qed
qed

lemma filter_py_join:
  "\<forall>c\<in>set sep. \<not> P c \<Longrightarrow> filter P (py_join sep xs) = concat (map (filter P) xs)"
  by (induction sep xs rule: py_join.induct) (simp_all add: filter_empty_conv)

lemma render_item_parts:
  "render_item tool
     = item_head @ html_escape (filename tool) @ item_mid @ html_escape (title tool)
       @ item_desc @ html_escape (description tool) @ item_tail"
  by (simp add: render_item_def Let_def item_head_def item_mid_def item_desc_def item_tail_def)

lemma item_parts_markup:
  "filter markup_char item_head = ''<'' @ [dquote, dquote] @ ''><'' @ [dquote]"
  "filter markup_char item_mid = [dquote, dquote, dquote] @ ''><'' @ [dquote, dquote] @ ''>''"
  "filter markup_char item_desc = ''<><><>''"
  "filter markup_char item_tail = ''<><>''"
  by code_simp+

lemma item_parts_ampersands:
  "filter (\<lambda>x. x = CHR ''&'') item_head = []"
  "filter (\<lambda>x. x = CHR ''&'') item_mid = []"
  "filter (\<lambda>x. x = CHR ''&'') item_desc = []"
  "filter (\<lambda>x. x = CHR ''&'') item_tail = []"
  by code_simp+

lemma render_item_markup: "filter markup_char (render_item tool) = item_markup"
  unfolding render_item_parts
  by (simp only: filter_append item_parts_markup html_escape_no_markup item_markup_def)
    simp

lemma render_item_ampersands:
  "length (filter (\<lambda>x. x = CHR ''&'') (render_item tool))
     = length (filter special_char (filename tool @ title tool @ description tool))"
  unfolding render_item_parts
  by (simp only: filter_append item_parts_ampersands length_append html_escape_ampersands
      list.size)

lemma render_item_in_fragment:
  "tool \<in> set tools \<Longrightarrow> sublist (render_item tool) (render_tools_html tools)"
  unfolding render_tools_html_def by (rule sublist_py_join) simp

text \<open>
  Claim C7. For every tool list, the fragment holds, for each tool, the fixed text of an
  item around the escaped file name (as the link target), the escaped title and the
  escaped description, and the escaped form of a text is the text with each of
  \<^verbatim>\<open>&\<close>, \<^verbatim>\<open><\<close>, \<^verbatim>\<open>>\<close> and the two quotes replaced by its entity. No field brings markup
  into the fragment: the characters \<^verbatim>\<open><\<close>, \<^verbatim>\<open>>\<close> and the quotes of the fragment are those
  of the fixed text, item after item, and the fragment has one ampersand for each
  character of a field that is replaced by an entity.
\<close>

theorem render_tools_html_escaped:
  "(\<forall>tool\<in>set tools.
      sublist (item_head @ html_escape (filename tool) @ item_mid @ html_escape (title tool)
               @ item_desc @ html_escape (description tool) @ item_tail)
        (render_tools_html tools))
   \<and> filter markup_char (render_tools_html tools) = concat (replicate (length tools) item_markup)
   \<and> length (filter (\<lambda>x. x = CHR ''&'') (render_tools_html tools))
       = sum_list (map (\<lambda>tool. length (filter special_char
                          (filename tool @ title tool @ description tool))) tools)
   \<and> html_escape s = concat (map escape_char s)
   \<and> (\<forall>x\<in>set (html_escape s). \<not> markup_char x)"
proof (intro conjI ballI)
  fix tool assume "tool \<in> set tools"
  then show "sublist (item_head @ html_escape (filename tool) @ item_mid
               @ html_escape (title tool) @ item_desc @ html_escape (description tool)
               @ item_tail) (render_tools_html tools)"
    using render_item_in_fragment [of tool tools] by (simp only: render_item_parts)
next
  have "\<forall>c\<in>set [newline]. \<not> markup_char c"
    by (simp add: markup_char_def newline_def dquote_def squote_def)
  then have "filter markup_char (render_tools_html tools)
      = concat (map (filter markup_char) (map render_item tools))"
    unfolding render_tools_html_def by (rule filter_py_join)
  also have "\<dots> = concat (map (\<lambda>tool. item_markup) tools)"
    by (simp add: render_item_markup comp_def)
  also have "\<dots> = concat (replicate (length tools) item_markup)"
    by (simp only: map_replicate_const)
  finally show "filter markup_char (render_tools_html tools)
      = concat (replicate (length tools) item_markup)" .
next
  have "\<forall>c\<in>set [newline]. \<not> c = CHR ''&''"
    by (simp add: newline_def)
  then have "filter (\<lambda>x. x = CHR ''&'') (render_tools_html tools)
      = concat (map (filter (\<lambda>x. x = CHR ''&'')) (map render_item tools))"
    unfolding render_tools_html_def by (rule filter_py_join)
  then show "length (filter (\<lambda>x. x = CHR ''&'') (render_tools_html tools))
       = sum_list (map (\<lambda>tool. length (filter special_char
                          (filename tool @ title tool @ description tool))) tools)"
    by (simp only: length_concat map_map comp_def render_item_ampersands)
next
  show "html_escape s = concat (map escape_char s)"
    by (rule html_escape_chars)
next
  fix x assume "x \<in> set (html_escape s)"
  then show "\<not> markup_char x"
    unfolding html_escape_chars using escape_char_no_markup by auto
qed

lemma script_tools_length: "length script_tools = 2"
  by (simp add: script_tools_def)

theorem render_tools_html_escaped_witness:
  "sublist (item_head @ ''a&amp;b.html'' @ item_mid @ ''A &lt;b&gt; &quot;B&quot;''
            @ item_desc @ ''&lt;script&gt;alert(&#x27;x&#x27;)&lt;/script&gt;'' @ item_tail)
     (render_tools_html script_tools)
   \<and> sublist ''<p>&lt;script&gt;alert(&#x27;x&#x27;)&lt;/script&gt;</p>''
       (render_tools_html script_tools)
   \<and> \<not> sublist ''<script>'' (render_tools_html script_tools)
   \<and> filter markup_char (render_tools_html script_tools) = item_markup @ item_markup
   \<and> length (filter (\<lambda>x. x = CHR ''&'') (render_tools_html script_tools)) = 11"
proof -
  let ?t = "\<lparr>filename = ''a&b.html'', title = ''A <b> '' @ [dquote] @ ''B'' @ [dquote],
       description = ''<script>alert('' @ [squote] @ ''x'' @ [squote] @ '')</script>''\<rparr>"
  have mem: "?t \<in> set script_tools"
    by (simp add: script_tools_def)
  have e: "html_escape (filename ?t) = ''a&amp;b.html''"
    "html_escape (title ?t) = ''A &lt;b&gt; &quot;B&quot;''"
    "html_escape (description ?t) = ''&lt;script&gt;alert(&#x27;x&#x27;)&lt;/script&gt;''"
    by code_simp+
  have a: "sublist ''<p>&lt;script&gt;alert(&#x27;x&#x27;)&lt;/script&gt;</p>''
     (render_tools_html script_tools)"
    by code_simp
  have d: "\<not> sublist ''<script>'' (render_tools_html script_tools)"
    by code_simp
  have n: "sum_list (map (\<lambda>tool. length (filter special_char
                          (filename tool @ title tool @ description tool))) script_tools)
           = 11"
    by code_simp
  have r: "concat (replicate (length script_tools) item_markup) = item_markup @ item_markup"
    by (simp add: script_tools_length numeral_2_eq_2)
  from render_tools_html_escaped [of script_tools] mem
  have "sublist (item_head @ html_escape (filename ?t) @ item_mid @ html_escape (title ?t)
               @ item_desc @ html_escape (description ?t) @ item_tail)
        (render_tools_html script_tools)"
    by blast
  then have i: "sublist (item_head @ ''a&amp;b.html'' @ item_mid @ ''A &lt;b&gt; &quot;B&quot;''
            @ item_desc @ ''&lt;script&gt;alert(&#x27;x&#x27;)&lt;/script&gt;'' @ item_tail)
     (render_tools_html script_tools)"
    unfolding e .
  from render_tools_html_escaped [of script_tools]
  have "filter markup_char (render_tools_html script_tools) = item_markup @ item_markup"
    and "length (filter (\<lambda>x. x = CHR ''&'') (render_tools_html script_tools)) = 11"
    unfolding n r by blast+
  with i a d show ?thesis by blast
qed

section \<open>Substitution of the placeholder\<close>

lemma py_replace_ne_none:
  "\<not> sublist old s \<Longrightarrow> py_replace_ne old new s = s"
proof (induction s)
  case Nil
  show ?case by simp
next
  case (Cons c cs)
  from Cons.prems have "\<not> prefix old (c # cs)" and "\<not> sublist old cs"
    by (simp_all add: sublist_Cons_right)
  with Cons.IH show ?case by simp
qed

lemma py_replace_ne_here:
  assumes "old \<noteq> []"
  shows "py_replace_ne old new (old @ rest) = new @ py_replace_ne old new rest"
proof -
  from assms obtain c cs where eq: "old @ rest = c # cs"
    by (cases old) auto
  have pre: "prefix old (c # cs)"
    unfolding eq [symmetric] by simp
  have dr: "drop (length old) (c # cs) = rest"
    unfolding eq [symmetric] by simp
  have "py_replace_ne old new (c # cs) = new @ py_replace_ne old new rest"
    using assms pre dr by (simp del: drop_Suc_Cons)
  then show ?thesis by (simp add: eq)
qed

lemma py_replace_ne_step:
  assumes "old \<noteq> []"
    and "\<forall>i<length p. \<not> prefix old (drop i (p @ old @ rest))"
  shows "py_replace_ne old new (p @ old @ rest) = p @ new @ py_replace_ne old new rest"
  using assms(2)
proof (induction p)
  case Nil
  show ?case using py_replace_ne_here [OF assms(1)] by simp
next
  case (Cons x p)
  from Cons.prems have "\<not> prefix old (drop 0 ((x # p) @ old @ rest))"
    by blast
  then have no: "\<not> prefix old (x # p @ old @ rest)" by simp
  have "\<forall>i<length p. \<not> prefix old (drop i (p @ old @ rest))"
  proof (intro allI impI)
    fix i assume "i < length p"
    then have "Suc i < length (x # p)" by simp
    with Cons.prems have "\<not> prefix old (drop (Suc i) ((x # p) @ old @ rest))" by blast
    then show "\<not> prefix old (drop i (p @ old @ rest))" by simp
  qed
  from Cons.IH [OF this] no show ?case by simp
qed

text \<open>A token whose first character does not occur again in it cannot overlap a copy of
  itself: next to a text without the token, the first occurrence is the token itself.\<close>

lemma no_early_occurrence:
  assumes old: "old \<noteq> []" "hd old \<notin> set (tl old)"
    and p: "\<not> sublist old p"
    and i: "i < length p"
  shows "\<not> prefix old (drop i (p @ old @ rest))"
proof
  have sub: "sublist (drop i p) p" by (rule sublist_drop)
  assume "prefix old (drop i (p @ old @ rest))"
  with i have "prefix old (drop i p @ old @ rest)" by simp
  then consider "prefix old (drop i p)"
    | us where "old = drop i p @ us" "prefix us (old @ rest)"
    unfolding prefix_append by blast
  then show False
  proof cases
    case 1
    then have "sublist old (drop i p)" by (rule prefix_imp_sublist)
    from sublist_order.order_trans [OF this sub] p show False by blast
  next
    case 2
    from i have d: "drop i p \<noteq> []" by simp
    show False
    proof (cases us)
      case Nil
      with 2(1) have "old = drop i p" by simp
      with sub p show False by simp
    next
      case (Cons u us')
      from 2(2) Cons old(1) have "u = hd old"
        by (cases old) auto
      moreover have "u \<in> set (tl old)"
      proof (cases "drop i p")
        case Nil
        with d show ?thesis by simp
      next
        case (Cons a as)
        with 2(1) \<open>us = u # us'\<close> show ?thesis by simp
      qed
      ultimately show False using old(2) by simp
    qed
  qed
qed

lemma py_replace_ne_join:
  assumes "old \<noteq> []" and "hd old \<notin> set (tl old)"
    and "\<forall>p\<in>set parts. \<not> sublist old p"
  shows "py_replace_ne old new (py_join old parts) = py_join new parts"
  using assms
proof (induction old parts rule: py_join.induct)
  case (1 sep)
  show ?case by simp
next
  case (2 sep x)
  then show ?case by (simp add: py_replace_ne_none)
next
  case (3 sep x y ys)
  from 3 have x: "\<not> sublist sep x" by simp
  have early: "\<forall>i<length x. \<not> prefix sep (drop i (x @ sep @ py_join sep (y # ys)))"
    using no_early_occurrence [OF "3.prems"(1,2) x] by blast
  have "py_replace_ne sep new (py_join sep (y # ys)) = py_join new (y # ys)"
    using 3 by simp
  with py_replace_ne_step [OF "3.prems"(1) early, of new] show ?case by simp
qed

lemma placeholder_token: "placeholder \<noteq> []" "hd placeholder \<notin> set (tl placeholder)"
  by (simp_all add: placeholder_def)

text \<open>
  Claim C2, as amended. \<^verbatim>\<open>generate_index_html\<close> substitutes the rendered fragment for
  every occurrence of the placeholder in the template: a template made of parts without
  the placeholder, joined by the placeholder, yields the same parts joined by the fragment.
\<close>

theorem generate_index_html_every_occurrence:
  assumes "\<forall>p\<in>set parts. \<not> sublist placeholder p"
  shows "generate_index_html tools template_path (Some (Text (py_join placeholder parts)))
           = Inr (py_join (render_tools_html tools) parts)"
  using py_replace_ne_join [OF placeholder_token assms] placeholder_token(1)
  by (simp add: generate_index_html_def py_replace_def)

theorem generate_index_html_every_occurrence_witness:
  "\<not> sublist placeholder ''<ul>'' \<and> \<not> sublist placeholder ''</ul><ol>''
   \<and> \<not> sublist placeholder ''</ol>''
   \<and> py_join placeholder [''<ul>'', ''</ul><ol>'', ''</ol>''] = twice_template
   \<and> generate_index_html one_tool ''/repo/index.template.html'' (Some (Text twice_template))
       = Inr (''<ul>'' @ render_tools_html one_tool @ ''</ul><ol>''
                @ render_tools_html one_tool @ ''</ol>'')"
proof -
  have a: "\<not> sublist placeholder ''<ul>''" by code_simp
  have b: "\<not> sublist placeholder ''</ul><ol>''" by code_simp
  have c: "\<not> sublist placeholder ''</ol>''" by code_simp
  have j: "py_join placeholder [''<ul>'', ''</ul><ol>'', ''</ol>''] = twice_template"
    by (simp add: twice_template_def)
  from a b c have "\<forall>p\<in>set [''<ul>'', ''</ul><ol>'', ''</ol>'']. \<not> sublist placeholder p"
    by simp
  from generate_index_html_every_occurrence [OF this, of one_tool "''/repo/index.template.html''"]
  have "generate_index_html one_tool ''/repo/index.template.html'' (Some (Text twice_template))
       = Inr (''<ul>'' @ render_tools_html one_tool @ ''</ul><ol>''
                @ render_tools_html one_tool @ ''</ol>'')"
    unfolding j by simp
  with a b c j show ?thesis by blast
qed

text \<open>
  Claim C2, as stated, fails: \<^verbatim>\<open>str.replace\<close> is called without a count. In a template
  with two placeholders the second one is replaced too, and the document is not the one
  in which only the first is replaced.
\<close>

theorem generate_index_html_not_first_only:
  "generate_index_html one_tool ''/repo/index.template.html'' (Some (Text twice_template))
     = Inr (''<ul>'' @ render_tools_html one_tool @ ''</ul><ol>''
              @ render_tools_html one_tool @ ''</ol>'')
   \<and> generate_index_html one_tool ''/repo/index.template.html'' (Some (Text twice_template))
     \<noteq> Inr (''<ul>'' @ render_tools_html one_tool @ ''</ul><ol>'' @ placeholder @ ''</ol>'')"
  by code_simp

section \<open>The description pattern\<close>























end
